theory Spec2Isabelle
  imports Main
begin

section \<open>Python strings\<close>

text \<open>
  A Python \<open>str\<close> is modelled as a \<^typ>\<open>string\<close> whose characters are code points
  below 256, one character each. The three characters that cannot be written inside a
  string literal get names.
\<close>

definition dquote :: char where
  "dquote = CHR 0x22"

definition newline :: char where
  "newline = CHR 0x0A"

definition backslash :: char where
  "backslash = CHR 0x5C"

text \<open>\<open>sub in s\<close> for strings.\<close>

fun str_contains :: "string \<Rightarrow> string \<Rightarrow> bool" where
  "str_contains sub [] = (sub = [])"
| "str_contains sub (c # cs) = (take (length sub) (c # cs) = sub \<or> str_contains sub cs)"

text \<open>
  \<open>s.replace(old, new)\<close>: every non-overlapping occurrence of \<open>old\<close>, leftmost first,
  is replaced; an empty \<open>old\<close> matches before every character and at the end.
\<close>

function str_replace :: "string \<Rightarrow> string \<Rightarrow> string \<Rightarrow> string" where
  "str_replace [] old new = (if old = [] then new else [])"
| "str_replace (c # cs) old new =
     (if old = [] then new @ c # str_replace cs old new
      else if take (length old) (c # cs) = old
           then new @ str_replace (drop (length old) (c # cs)) old new
      else c # str_replace cs old new)"
  by pat_completeness auto
termination
  by (relation "measure (\<lambda>(s, old, new). length s)") auto

text \<open>
  \<open>str.isspace\<close> on code points below 256, and \<open>s.strip()\<close>, which removes the
  white space at both ends.
\<close>

definition is_space :: "char \<Rightarrow> bool" where
  "is_space c =
     (let n = of_char c :: nat
      in (9 \<le> n \<and> n \<le> 13) \<or> (28 \<le> n \<and> n \<le> 32) \<or> n = 133 \<or> n = 160)"

definition strip :: "string \<Rightarrow> string" where
  "strip s = rev (dropWhile is_space (rev (dropWhile is_space s)))"

section \<open>The \<open>python_requires\<close> pattern\<close>

text \<open>
  \<open>python_requires_re\<close> is the literal \<open>python_requires="\<close>, then a greedy \<open>.*\<close>
  (any characters but a line feed), then a double quote. A match at the start of \<open>s\<close>
  therefore captures the rest of the line up to its last double quote. The result is
  the captured group and the length of the whole match.
\<close>

definition python_requires_key :: string where
  "python_requires_key = ''python_requires='' @ [dquote]"

definition python_requires_re_match :: "string \<Rightarrow> (string \<times> nat) option" where
  "python_requires_re_match s =
     (if take (length python_requires_key) s = python_requires_key then
        (let line = takeWhile (\<lambda>c. c \<noteq> newline) (drop (length python_requires_key) s)
         in if dquote \<in> set line
            then (let captured = rev (tl (dropWhile (\<lambda>c. c \<noteq> dquote) (rev line)))
                  in Some (captured, length python_requires_key + length captured + 1))
            else None)
      else None)"

text \<open>
  \<open>python_requires_re.findall(setup)\<close>: the captured groups of the successive
  non-overlapping matches, scanning from the left and resuming after each match.
\<close>

function python_requires_re_findall :: "string \<Rightarrow> string list" where
  "python_requires_re_findall [] = []"
| "python_requires_re_findall (c # cs) =
     (case python_requires_re_match (c # cs) of
        Some (captured, n) \<Rightarrow> captured # python_requires_re_findall (drop n (c # cs))
      | None \<Rightarrow> python_requires_re_findall cs)"
  by pat_completeness auto
termination
  by (relation "measure length")
     (auto simp: python_requires_re_match_def Let_def split: if_splits)

definition get_python_version :: "string \<Rightarrow> string" where
  "get_python_version setup =
     (let python_requires = python_requires_re_findall setup
      in if python_requires = [] then ''^3.9''
         else str_replace (hd python_requires) ''>='' ''^'')"

section \<open>Requirement records, Python errors and manifest values\<close>

text \<open>
  The fields of a parsed \<open>Requirement\<close> that the migration reads. \<open>name\<close> is \<open>None\<close>
  for a requirement without a package name (an editable path without \<open>egg=\<close>),
  \<open>path\<close> is \<open>None\<close> unless the requirement is a local path, \<open>specs\<close> holds the
  (operator, version) pairs.
\<close>

record requirement =
  name :: "string option"
  editable :: bool
  path :: "string option"
  specs :: "(string \<times> string) list"
  extras :: "string list"

text \<open>
  The exceptions of the program, as values. A \<open>ValueError\<close> carries what its message is
  built from; a \<open>KeyError\<close> carries the key that was looked up; \<open>ExternalError\<close> stands
  for whatever the requirements parser raises on a file it cannot read.
\<close>

datatype value_error =
    MissingEgg string "requirement list"
  | EditableWithoutEgg
  | NotEnoughValues

datatype py_error =
    ValueError value_error
  | AttributeError
  | KeyError "string option"
  | TypeError
  | NotImplementedError
  | ExternalError string

definition bind_err :: "'e + 'a \<Rightarrow> ('a \<Rightarrow> 'e + 'b) \<Rightarrow> 'e + 'b" where
  "bind_err m f = (case m of Inl e \<Rightarrow> Inl e | Inr x \<Rightarrow> f x)"

text \<open>
  The values held by the manifest document. A dictionary is an association list with
  distinct keys in insertion order; a key is a string or \<open>None\<close>.
\<close>

datatype toml =
    TNone
  | TBool bool
  | TInt int
  | TStr string
  | TList "toml list"
  | TDict "(string option \<times> toml) list"

text \<open>\<open>d[k] = v\<close> on a dictionary: an existing key keeps its position.\<close>

fun dict_setitem :: "('k \<times> 'v) list \<Rightarrow> 'k \<Rightarrow> 'v \<Rightarrow> ('k \<times> 'v) list" where
  "dict_setitem [] k v = [(k, v)]"
| "dict_setitem ((k', v') # d) k v =
     (if k' = k then (k', v) # d else (k', v') # dict_setitem d k v)"

text \<open>
  \<open>obj.setdefault(k, dflt)\<close>: the value found or inserted, and the object afterwards.
  Only a dictionary has the method.
\<close>

definition setdefault :: "toml \<Rightarrow> string option \<Rightarrow> toml \<Rightarrow> py_error + toml \<times> toml" where
  "setdefault obj k dflt =
     (case obj of
        TDict d \<Rightarrow>
          (case map_of d k of
             Some v \<Rightarrow> Inr (v, obj)
           | None \<Rightarrow> Inr (dflt, TDict (d @ [(k, dflt)])))
      | _ \<Rightarrow> Inl AttributeError)"

text \<open>\<open>obj[k] = v\<close> with a string or \<open>None\<close> as \<open>k\<close>: only a dictionary accepts it.\<close>

definition setitem :: "toml \<Rightarrow> string option \<Rightarrow> toml \<Rightarrow> py_error + toml" where
  "setitem obj k v =
     (case obj of
        TDict d \<Rightarrow> Inr (TDict (dict_setitem d k v))
      | _ \<Rightarrow> Inl TypeError)"

text \<open>
  The object returned by \<open>setdefault\<close> is the one its parent holds, so a mutation of it
  is seen through the parent. In the model the mutated child is stored back under its
  key.
\<close>

definition write_back :: "toml \<Rightarrow> string option \<Rightarrow> toml \<Rightarrow> toml" where
  "write_back obj k v =
     (case obj of
        TDict d \<Rightarrow> TDict (dict_setitem d k v)
      | _ \<Rightarrow> obj)"

text \<open>
  An iterable that is consumed once: it is exhausted, or yields an item and goes on, or
  raises.
\<close>

datatype 'a generator =
    StopIteration
  | Yield 'a "'a generator"
  | Raise py_error

text \<open>\<open>list(g)\<close>.\<close>

fun drain :: "'a generator \<Rightarrow> py_error + 'a list" where
  "drain StopIteration = Inr []"
| "drain (Raise e) = Inl e"
| "drain (Yield x g) = bind_err (drain g) (\<lambda>xs. Inr (x # xs))"

section \<open>\<open>add_requirement_section\<close>\<close>

text \<open>The body of the loop up to the comment \<open>Write spec\<close>: the value of \<open>specs\<close>.\<close>

definition dependency_specs :: "requirement \<Rightarrow> bool \<Rightarrow> py_error + toml" where
  "dependency_specs r dev =
     bind_err
       (if editable r then
          (case path r of
             None \<Rightarrow> Inl TypeError
           | Some p \<Rightarrow>
               (let sp = TDict [(Some ''path'', TStr (strip (drop 5 p))),
                                (Some ''develop'', TBool True)]
                in if dev then setitem sp (Some ''extras'') (TList [TStr ''dev''])
                   else Inr sp))
        else if length (specs r) = 1 then Inr (TStr (''^'' @ snd (specs r ! 0)))
        else if length (specs r) = 0 then Inl NotImplementedError
        else Inl NotImplementedError)
       (\<lambda>sp. if extras r \<noteq> [] then
               setitem (case sp of TDict d \<Rightarrow> sp | _ \<Rightarrow> TDict [(Some ''version'', sp)])
                 (Some ''extras'') (TList (map TStr (extras r)))
             else Inr sp)"

text \<open>The \<open>for\<close> loop over the requirements.\<close>

fun add_requirements :: "toml \<Rightarrow> requirement generator \<Rightarrow> bool \<Rightarrow> py_error + toml" where
  "add_requirements dependencies StopIteration dev = Inr dependencies"
| "add_requirements dependencies (Raise e) dev = Inl e"
| "add_requirements dependencies (Yield r rest) dev =
     bind_err (dependency_specs r dev) (\<lambda>sp.
     bind_err (setitem dependencies (name r) sp) (\<lambda>dependencies'.
     add_requirements dependencies' rest dev))"

definition add_requirement_section ::
  "toml \<Rightarrow> requirement generator \<Rightarrow> bool \<Rightarrow> py_error + toml" where
  "add_requirement_section pyproject requirements dev =
     (let section = (if dev then ''dev-'' else []) @ ''dependencies'' in
      bind_err (setdefault pyproject (Some ''tool'') (TDict [])) (\<lambda>(tool, pyproject1).
      bind_err (setdefault tool (Some ''poetry'') (TDict [])) (\<lambda>(poetry, tool1).
      bind_err (setdefault poetry (Some section) (TDict [])) (\<lambda>(dependencies, poetry1).
      bind_err (add_requirements dependencies requirements dev) (\<lambda>dependencies'.
      Inr (write_back pyproject1 (Some ''tool'')
            (write_back tool1 (Some ''poetry'')
              (write_back poetry1 (Some section) dependencies'))))))))"

section \<open>\<open>load_requirements\<close>\<close>

text \<open>
  \<open>package_hash_re\<close> is the literal \<open>--hash=sha256:\<close> followed by exactly 64 lower-case
  hexadecimal digits; \<open>package_hash_re.sub("", s)\<close> deletes every match.
\<close>

definition is_hex_digit :: "char \<Rightarrow> bool" where
  "is_hex_digit c = (c \<in> set ''0123456789abcdef'')"

definition package_hash_re_match :: "string \<Rightarrow> bool" where
  "package_hash_re_match s =
     (take 14 s = ''--hash=sha256:'' \<and> 64 \<le> length (drop 14 s) \<and>
      list_all is_hex_digit (take 64 (drop 14 s)))"

fun package_hash_re_sub :: "string \<Rightarrow> string" where
  "package_hash_re_sub [] = []"
| "package_hash_re_sub (c # cs) =
     (if package_hash_re_match (c # cs) then package_hash_re_sub (drop 78 (c # cs))
      else c # package_hash_re_sub cs)"

text \<open>
  The dictionary comprehension \<open>{requirement.name.replace("_", "-"): requirement for ...}\<close>,
  filled from the left. \<open>None\<close> has no \<open>replace\<close>.
\<close>

fun requirements_dict ::
  "(string option \<times> requirement) list \<Rightarrow> requirement list \<Rightarrow>
   py_error + (string option \<times> requirement) list" where
  "requirements_dict d [] = Inr d"
| "requirements_dict d (r # rs) =
     (case name r of
        None \<Rightarrow> Inl AttributeError
      | Some n \<Rightarrow> requirements_dict (dict_setitem d (Some (str_replace n ''_'' ''-'')) r) rs)"

text \<open>
  The generator expression that is returned: it walks the keys of the wanted map and
  looks each one up in the resolved map when the item is asked for.
\<close>

fun reconciled ::
  "(string option \<times> requirement) list \<Rightarrow> string option list \<Rightarrow> requirement generator" where
  "reconciled requirements_txt_map [] = StopIteration"
| "reconciled requirements_txt_map (requirement_in # rest) =
     (if requirement_in \<noteq> Some ''pip-tools'' then
        (case map_of requirements_txt_map requirement_in of
           None \<Rightarrow> Raise (KeyError requirement_in)
         | Some r \<Rightarrow> Yield r (reconciled requirements_txt_map rest))
      else reconciled requirements_txt_map rest)"

text \<open>
  \<open>parse\<close> is \<open>requirements.parse\<close> of the requirements-parser library, read to the
  end; \<open>in_text\<close> and \<open>txt_text\<close> are the contents of the two files.
\<close>

definition load_requirements ::
  "(string \<Rightarrow> py_error + requirement list) \<Rightarrow> string \<Rightarrow> string \<Rightarrow> string \<Rightarrow>
   py_error + requirement generator" where
  "load_requirements parse requirement_filename in_text txt_text =
     bind_err (parse in_text) (\<lambda>requirements_in.
     let requirements_txt_raw = package_hash_re_sub txt_text;
         requirements_txt_raw = str_replace requirements_txt_raw [backslash] []
     in
     bind_err (parse requirements_txt_raw) (\<lambda>requirements_txt.
     let missing_names = filter (\<lambda>r. name r = None) requirements_in in
     if missing_names \<noteq> [] then
       Inl (ValueError (MissingEgg requirement_filename missing_names))
     else
       bind_err (requirements_dict [] requirements_in) (\<lambda>requirements_in_map.
       bind_err (requirements_dict [] requirements_txt) (\<lambda>requirements_txt_map.
       if None \<in> set (map fst requirements_in_map) \<or>
          None \<in> set (map fst requirements_txt_map)
       then Inl (ValueError EditableWithoutEgg)
       else Inr (reconciled requirements_txt_map (map fst requirements_in_map))))))"

section \<open>\<open>add_private_repo\<close>\<close>

text \<open>\<open>s.split(":", maxsplit=1)\<close>.\<close>

definition split_colon :: "string \<Rightarrow> string list" where
  "split_colon s =
     (if CHR '':'' \<in> set s
      then [takeWhile (\<lambda>c. c \<noteq> CHR '':'') s, tl (dropWhile (\<lambda>c. c \<noteq> CHR '':'') s)]
      else [s])"

text \<open>
  The loop over the sources: \<open>Some\<close> of the updated list when an entry with the name was
  found (the function returns there), \<open>None\<close> when the loop ran to its end.
\<close>

fun update_source :: "toml list \<Rightarrow> string \<Rightarrow> string \<Rightarrow> py_error + toml list option" where
  "update_source [] nm url = Inr None"
| "update_source (source # rest) nm url =
     (case source of
        TDict d \<Rightarrow>
          (case map_of d (Some ''name'') of
             None \<Rightarrow> Inl (KeyError (Some ''name''))
           | Some v \<Rightarrow>
               if v = TStr nm
               then Inr (Some (TDict (dict_setitem d (Some ''url'') (TStr url)) # rest))
               else bind_err (update_source rest nm url)
                      (\<lambda>found. Inr (map_option ((#) source) found)))
      | _ \<Rightarrow> Inl TypeError)"

text \<open>
  The loop and the \<open>append\<close> on whatever object \<open>sources\<close> is: a list is searched and
  extended; an empty dictionary or string is iterated without effect and has no
  \<open>append\<close>; the items of a non-empty one are keys or characters, which cannot be
  indexed by \<open>"name"\<close>; anything else is not iterable.
\<close>

definition merge_source :: "toml \<Rightarrow> string \<Rightarrow> string \<Rightarrow> py_error + toml" where
  "merge_source sources nm url =
     (case sources of
        TList xs \<Rightarrow>
          bind_err (update_source xs nm url) (\<lambda>found.
            case found of
              Some xs' \<Rightarrow> Inr (TList xs')
            | None \<Rightarrow> Inr (TList (xs @ [TDict [(Some ''name'', TStr nm),
                                                (Some ''url'', TStr url)]])))
      | TDict d \<Rightarrow> if d = [] then Inl AttributeError else Inl TypeError
      | TStr s \<Rightarrow> if s = [] then Inl AttributeError else Inl TypeError
      | _ \<Rightarrow> Inl TypeError)"

definition add_private_repo :: "toml \<Rightarrow> string \<Rightarrow> py_error + toml" where
  "add_private_repo pyproject private_repo =
     (case split_colon private_repo of
        [nm, url] \<Rightarrow>
          bind_err (setdefault pyproject (Some ''tool'') (TDict [])) (\<lambda>(tool, pyproject1).
          bind_err (setdefault tool (Some ''poetry'') TNone) (\<lambda>(poetry, tool1).
          bind_err (setdefault poetry (Some ''source'') (TList [])) (\<lambda>(sources, poetry1).
          bind_err (merge_source sources nm url) (\<lambda>sources'.
          Inr (write_back pyproject1 (Some ''tool'')
                (write_back tool1 (Some ''poetry'')
                  (write_back poetry1 (Some ''source'') sources')))))))
      | _ \<Rightarrow> Inl (ValueError NotEnoughValues))"

section \<open>Notions used to state the properties\<close>

text \<open>The item \<open>x\<close> is among those the iterable yields before it ends or raises.\<close>

fun yields :: "'a generator \<Rightarrow> 'a \<Rightarrow> bool" where
  "yields StopIteration x = False"
| "yields (Raise e) x = False"
| "yields (Yield y g) x = (y = x \<or> yields g x)"

text \<open>A setup script whose \<open>python_requires\<close> uses the operator \<open>~=\<close>.\<close>

definition example_setup :: string where
  "example_setup =
     ''setup('' @ [newline] @
     ''    name='' @ [dquote] @ ''example'' @ [dquote] @ '','' @ [newline] @
     ''    python_requires='' @ [dquote] @ ''~=3.8'' @ [dquote] @ '','' @ [newline] @
     '')'' @ [newline]"

text \<open>
  The key under which \<open>load_requirements\<close> files a requirement: its name with every
  underscore turned into a hyphen.
\<close>

definition canonical_name :: "requirement \<Rightarrow> string option" where
  "canonical_name r = map_option (\<lambda>n. str_replace n ''_'' ''-'') (name r)"

text \<open>The elements of a list in the order of their first occurrence.\<close>

fun first_occurrences :: "'a list \<Rightarrow> 'a list" where
  "first_occurrences [] = []"
| "first_occurrences (x # xs) = x # filter (\<lambda>y. y \<noteq> x) (first_occurrences xs)"

text \<open>
  A wanted file and a resolved file, already parsed, an editable requirement without a
  name, and a parser that returns the first list for the text \<open>wanted\<close> and the second
  list for any other text.
\<close>

definition example_wanted :: "requirement list" where
  "example_wanted =
     [\<lparr>name = Some ''pip-tools'', editable = False, path = None, specs = [], extras = []\<rparr>,
      \<lparr>name = Some ''typing_extensions'', editable = False, path = None, specs = [],
       extras = []\<rparr>,
      \<lparr>name = Some ''requests'', editable = False, path = None, specs = [], extras = []\<rparr>]"

definition example_resolved :: "requirement list" where
  "example_resolved =
     [\<lparr>name = Some ''requests'', editable = False, path = None,
       specs = [(''=='', ''2.28.0'')], extras = []\<rparr>,
      \<lparr>name = Some ''typing-extensions'', editable = False, path = None,
       specs = [(''=='', ''4.4.0'')], extras = []\<rparr>,
      \<lparr>name = Some ''urllib3'', editable = False, path = None,
       specs = [(''=='', ''1.26.12'')], extras = []\<rparr>]"

definition example_nameless :: requirement where
  "example_nameless =
     \<lparr>name = None, editable = True, path = Some ''file:./libs/foo'', specs = [], extras = []\<rparr>"

definition example_parse ::
  "requirement list \<Rightarrow> requirement list \<Rightarrow> string \<Rightarrow> py_error + requirement list" where
  "example_parse wanted resolved s = (if s = ''wanted'' then Inr wanted else Inr resolved)"

text \<open>
  What an entry of the registry-source list holds under \<open>name\<close> and under \<open>url\<close>,
  whether it bears a given name, and the entry with its \<open>url\<close> set.
\<close>

definition source_name :: "toml \<Rightarrow> toml option" where
  "source_name s = (case s of TDict d \<Rightarrow> map_of d (Some ''name'') | _ \<Rightarrow> None)"

definition source_url :: "toml \<Rightarrow> toml option" where
  "source_url s = (case s of TDict d \<Rightarrow> map_of d (Some ''url'') | _ \<Rightarrow> None)"

definition named :: "string \<Rightarrow> toml \<Rightarrow> bool" where
  "named nm s = (source_name s = Some (TStr nm))"

definition set_url :: "toml \<Rightarrow> string \<Rightarrow> toml" where
  "set_url s url =
     (case s of TDict d \<Rightarrow> TDict (dict_setitem d (Some ''url'') (TStr url)) | _ \<Rightarrow> s)"

text \<open>
  The update-or-append of the specification, on the list alone: the first entry that
  bears the name has its URL set in place, and when there is none a new entry of the
  name and the URL is appended.
\<close>

definition spec_update_or_append :: "toml list \<Rightarrow> string \<Rightarrow> string \<Rightarrow> toml list" where
  "spec_update_or_append sources nm url =
     (let i = length (takeWhile (\<lambda>s. \<not> named nm s) sources)
      in if i < length sources then sources[i := set_url (sources ! i) url]
         else sources @ [TDict [(Some ''name'', TStr nm), (Some ''url'', TStr url)]])"

text \<open>
  The registry-source list of a manifest whose \<open>tool\<close> and \<open>poetry\<close> entries are
  tables: the list under \<open>source\<close>, empty when the key is absent.
\<close>

definition registry_sources :: "toml \<Rightarrow> toml list option" where
  "registry_sources pyproject =
     (case pyproject of
        TDict p \<Rightarrow>
          (case map_of p (Some ''tool'') of
             Some (TDict t) \<Rightarrow>
               (case map_of t (Some ''poetry'') of
                  Some (TDict po) \<Rightarrow>
                    (case map_of po (Some ''source'') of
                       None \<Rightarrow> Some []
                     | Some (TList xs) \<Rightarrow> Some xs
                     | _ \<Rightarrow> None)
                | _ \<Rightarrow> None)
           | _ \<Rightarrow> None)
      | _ \<Rightarrow> None)"

text \<open>
  A manifest with a project table and a given registry-source list, or none, and a
  list of two sources.
\<close>

definition example_pyproject :: "toml list option \<Rightarrow> toml" where
  "example_pyproject sources =
     TDict [(Some ''tool'',
       TDict [(Some ''poetry'',
         TDict ((Some ''name'', TStr ''example'') #
                (case sources of None \<Rightarrow> [] | Some xs \<Rightarrow> [(Some ''source'', TList xs)])))])]"

definition example_sources :: "toml list" where
  "example_sources =
     [TDict [(Some ''name'', TStr ''internal''), (Some ''url'', TStr ''https://internal.test/'')],
      TDict [(Some ''name'', TStr ''private''), (Some ''url'', TStr ''https://old.test/''),
             (Some ''default'', TBool True)]]"

text \<open>
  A list of two sources that bear the same name; the URL of the first is given.
\<close>

definition example_duplicate_sources :: "string \<Rightarrow> toml list" where
  "example_duplicate_sources url =
     [TDict [(Some ''name'', TStr ''private''), (Some ''url'', TStr url)],
      TDict [(Some ''name'', TStr ''private''), (Some ''url'', TStr ''https://old.test/'')]]"

section \<open>Basic facts\<close>

lemma bind_err_simps [simp]:
  "bind_err (Inl e) f = Inl e"
  "bind_err (Inr x) f = f x"
  by (simp_all add: bind_err_def)

lemma isl_bind_err: "isl m \<Longrightarrow> isl (bind_err m f)"
  by (cases m) simp_all

lemma isl_bind_errI: "(\<And>x. m = Inr x \<Longrightarrow> isl (f x)) \<Longrightarrow> isl (bind_err m f)"
  by (cases m) simp_all

lemma python_requires_key_length: "length python_requires_key = 17"
  by (simp add: python_requires_key_def)

lemma str_replace_absent:
  "old \<noteq> [] \<Longrightarrow> \<not> str_contains old s \<Longrightarrow> str_replace s old new = s"
  by (induction s) auto

section \<open>The minimum Python version\<close>

text \<open>
  The key ends in the only double quote it has, so an occurrence of the key that starts
  in the text before a copy of the key lies wholly in that text.
\<close>

lemma python_requires_key_no_border:
  assumes "take 17 (p @ python_requires_key @ rest) = python_requires_key" and "p \<noteq> []"
  shows "take 17 p = python_requires_key"
proof (cases "17 \<le> length p")
  case True
  then show ?thesis using assms by simp
next
  case False
  define m where "m = length p"
  have m: "1 \<le> m" "m \<le> 16"
    using False assms(2) by (auto simp: m_def Suc_le_eq)
  have "take 17 (p @ python_requires_key @ rest) = p @ take (17 - m) python_requires_key"
    using m by (simp add: m_def python_requires_key_length)
  then have "p @ take (17 - m) python_requires_key = python_requires_key"
    using assms(1) by simp
  then have "(p @ take (17 - m) python_requires_key) ! 16 = python_requires_key ! 16"
    by simp
  then have "python_requires_key ! (16 - m) = python_requires_key ! 16"
    using m by (simp add: nth_append m_def python_requires_key_length)
  moreover have "\<forall>j<16. python_requires_key ! j \<noteq> python_requires_key ! 16"
    by (simp add: python_requires_key_def dquote_def All_less_Suc numeral_eq_Suc)
  moreover have "16 - m < 16"
    using m by arith
  ultimately show ?thesis by blast
qed

lemma findall_skip:
  "\<not> str_contains python_requires_key pre \<Longrightarrow>
   python_requires_re_findall (pre @ python_requires_key @ rest) =
   python_requires_re_findall (python_requires_key @ rest)"
proof (induction pre)
  case Nil
  then show ?case by simp
next
  case (Cons c pre)
  have "take 17 (c # pre) \<noteq> python_requires_key"
    and rest: "\<not> str_contains python_requires_key pre"
    using Cons.prems by (simp_all add: python_requires_key_length)
  then have "take 17 ((c # pre) @ python_requires_key @ rest) \<noteq> python_requires_key"
    using python_requires_key_no_border [of "c # pre" rest] by blast
  then have "python_requires_re_match (c # pre @ python_requires_key @ rest) = None"
    by (simp add: python_requires_re_match_def python_requires_key_length)
  then show ?case using Cons.IH [OF rest] by simp
qed

lemma match_literal:
  assumes "newline \<notin> set v" and "dquote \<notin> set v"
    and "dquote \<notin> set (takeWhile (\<lambda>c. c \<noteq> newline) post)"
  shows "python_requires_re_match (python_requires_key @ v @ dquote # post) =
         Some (v, length python_requires_key + length v + 1)"
proof -
  have nl: "dquote \<noteq> newline"
    by (simp add: dquote_def newline_def)
  have line: "takeWhile (\<lambda>c. c \<noteq> newline) (v @ dquote # post) =
              v @ dquote # takeWhile (\<lambda>c. c \<noteq> newline) post"
  proof -
    have "\<And>x. x \<in> set v \<Longrightarrow> x \<noteq> newline"
      using assms(1) by blast
    then have "takeWhile (\<lambda>c. c \<noteq> newline) (v @ dquote # post) =
               v @ takeWhile (\<lambda>c. c \<noteq> newline) (dquote # post)"
      by (rule takeWhile_append2)
    then show ?thesis using nl by simp
  qed
  have "dropWhile (\<lambda>c. c \<noteq> dquote)
          (rev (v @ dquote # takeWhile (\<lambda>c. c \<noteq> newline) post)) = dquote # rev v"
  proof -
    have "\<And>x. x \<in> set (rev (takeWhile (\<lambda>c. c \<noteq> newline) post)) \<Longrightarrow> x \<noteq> dquote"
      using assms(3) by auto
    then have "dropWhile (\<lambda>c. c \<noteq> dquote)
                 (rev (takeWhile (\<lambda>c. c \<noteq> newline) post) @ dquote # rev v) =
               dropWhile (\<lambda>c. c \<noteq> dquote) (dquote # rev v)"
      by (rule dropWhile_append2)
    then show ?thesis by simp
  qed
  then show ?thesis
    by (simp add: python_requires_re_match_def line)
qed

lemma findall_literal:
  assumes "newline \<notin> set v" and "dquote \<notin> set v"
    and "dquote \<notin> set (takeWhile (\<lambda>c. c \<noteq> newline) post)"
  shows "python_requires_re_findall (python_requires_key @ v @ dquote # post) =
         v # python_requires_re_findall post"
proof -
  obtain c cs where k: "python_requires_key = c # cs"
    by (cases python_requires_key) (simp_all add: python_requires_key_def)
  have "python_requires_re_findall (python_requires_key @ v @ dquote # post) =
        v # python_requires_re_findall
              (drop (length python_requires_key + length v + 1)
                 (python_requires_key @ v @ dquote # post))"
    using match_literal [OF assms] unfolding k by simp
  then show ?thesis by simp
qed

lemma findall_no_key:
  "\<not> str_contains python_requires_key s \<Longrightarrow> python_requires_re_findall s = []"
proof (induction s)
  case Nil
  then show ?case by simp
next
  case (Cons c s)
  then have "take 17 (c # s) \<noteq> python_requires_key"
    and "\<not> str_contains python_requires_key s"
    by (simp_all add: python_requires_key_length)
  then show ?case
    using Cons.IH by (simp add: python_requires_re_match_def python_requires_key_length)
qed

text \<open>
  Claim C1, as the code has it. Take a setup script in which the first
  \<open>python_requires="\<close> is followed by a text \<open>v\<close> and a closing double quote, with no
  double quote or line feed in \<open>v\<close> and no further double quote on that line. Then
  \<open>get_python_version\<close> returns \<open>v\<close> with every \<open>>=\<close> replaced by \<open>^\<close>. A constraint
  written with another operator, one in which \<open>>=\<close> does not occur, is therefore
  returned as it stands: it is not treated as absent and the default \<open>^3.9\<close> does not
  replace it. The default is what the text before the literal gives on its own, as
  any text without \<open>python_requires="\<close> does.
\<close>

theorem get_python_version_literal:
  assumes "\<not> str_contains python_requires_key pre"
    and "newline \<notin> set v" and "dquote \<notin> set v"
    and "dquote \<notin> set (takeWhile (\<lambda>c. c \<noteq> newline) post)"
  shows "get_python_version (pre @ python_requires_key @ v @ dquote # post) =
           str_replace v ''>='' ''^'' \<and>
         (\<not> str_contains ''>='' v \<longrightarrow>
            get_python_version (pre @ python_requires_key @ v @ dquote # post) = v) \<and>
         get_python_version pre = ''^3.9''"
proof -
  have "python_requires_re_findall (pre @ python_requires_key @ v @ dquote # post) =
        v # python_requires_re_findall post"
    using findall_skip [OF assms(1)] findall_literal [OF assms(2-4)] by simp
  then have "get_python_version (pre @ python_requires_key @ v @ dquote # post) =
             str_replace v ''>='' ''^''"
    by (simp add: get_python_version_def)
  moreover have "get_python_version pre = ''^3.9''"
    using findall_no_key [OF assms(1)] by (simp add: get_python_version_def)
  ultimately show ?thesis by (simp add: str_replace_absent)
qed

theorem get_python_version_literal_witness:
  "get_python_version
     ((''setup('' @ [newline] @ ''    name='' @ [dquote] @ ''example'' @ [dquote] @ '','' @
       [newline] @ ''    '') @
      python_requires_key @ ''~=3.8'' @ dquote # ('','' @ [newline] @ '')'' @ [newline])) =
   ''~=3.8''"
proof -
  let ?pre = "''setup('' @ [newline] @ ''    name='' @ [dquote] @ ''example'' @ [dquote] @
              '','' @ [newline] @ ''    ''"
  let ?post = "'','' @ [newline] @ '')'' @ [newline]"
  have 1: "\<not> str_contains python_requires_key ?pre" by code_simp
  have 2: "newline \<notin> set ''~=3.8''" by code_simp
  have 3: "dquote \<notin> set ''~=3.8''" by code_simp
  have 4: "dquote \<notin> set (takeWhile (\<lambda>c. c \<noteq> newline) ?post)" by code_simp
  have 5: "\<not> str_contains ''>='' ''~=3.8''" by code_simp
  show ?thesis using get_python_version_literal [OF 1 2 3 4] 5 by blast
qed

text \<open>
  Claim C1 as stated fails: the script \<open>example_setup\<close> has the literal
  \<open>python_requires="~=3.8"\<close>, in which \<open>>=\<close> does not occur, and the result is
  \<open>~=3.8\<close>, not the default.
\<close>

theorem get_python_version_other_operator_counterexample:
  "str_contains python_requires_key example_setup \<and>
   \<not> str_contains ''>='' example_setup \<and>
   get_python_version example_setup = ''~=3.8'' \<and>
   get_python_version example_setup \<noteq> ''^3.9''"
  by code_simp

section \<open>Translation of one requirement\<close>

text \<open>
  Claim C2, as the code has it. An editable requirement that has a path translates to
  a structured entry with \<open>develop\<close> true and \<open>path\<close> equal to the requirement's path
  without its first five characters, whatever they are, and then without the white
  space at both ends. The entry has no \<open>extras\<close> key when the requirement declares no
  extras and the section is not the dev section; in the dev section it carries
  \<open>extras: ["dev"]\<close>; extras of the requirement's own take that place.
\<close>

theorem editable_entry:
  assumes "editable r" and "path r = Some p"
  shows "dependency_specs r dev =
         Inr (TDict ([(Some ''path'', TStr (strip (drop 5 p))), (Some ''develop'', TBool True)] @
                     (if extras r \<noteq> [] then [(Some ''extras'', TList (map TStr (extras r)))]
                      else if dev then [(Some ''extras'', TList [TStr ''dev''])]
                      else [])))"
  using assms by (simp add: dependency_specs_def setitem_def)

theorem editable_entry_witness:
  "dependency_specs
     \<lparr>name = Some ''foo'', editable = True, path = Some ''file:libs/foo'',
      specs = [], extras = []\<rparr> False =
   Inr (TDict [(Some ''path'', TStr ''libs/foo''), (Some ''develop'', TBool True)]) \<and>
   dependency_specs
     \<lparr>name = Some ''foo'', editable = True, path = Some ''file:libs/foo'',
      specs = [], extras = []\<rparr> True =
   Inr (TDict [(Some ''path'', TStr ''libs/foo''), (Some ''develop'', TBool True),
               (Some ''extras'', TList [TStr ''dev''])]) \<and>
   dependency_specs
     \<lparr>name = Some ''foo'', editable = True, path = Some ''file: libs/foo '',
      specs = [], extras = []\<rparr> False =
   Inr (TDict [(Some ''path'', TStr ''libs/foo''), (Some ''develop'', TBool True)])"
  using
    editable_entry [of "\<lparr>name = Some ''foo'', editable = True, path = Some ''file:libs/foo'',
                         specs = [], extras = []\<rparr>" "''file:libs/foo''" False]
    editable_entry [of "\<lparr>name = Some ''foo'', editable = True, path = Some ''file:libs/foo'',
                         specs = [], extras = []\<rparr>" "''file:libs/foo''" True]
    editable_entry [of "\<lparr>name = Some ''foo'', editable = True, path = Some ''file: libs/foo '',
                         specs = [], extras = []\<rparr>" "''file: libs/foo ''" False]
  by (simp add: strip_def is_space_def)

text \<open>
  Claim C2 as stated fails at its own example: the five characters dropped from
  \<open>./libs/foo\<close> are \<open>./lib\<close>, so the path written is \<open>s/foo\<close>, not \<open>libs/foo\<close>.
\<close>

theorem editable_entry_counterexample:
  "dependency_specs
     \<lparr>name = Some ''foo'', editable = True, path = Some ''./libs/foo'',
      specs = [], extras = []\<rparr> False =
   Inr (TDict [(Some ''path'', TStr ''s/foo''), (Some ''develop'', TBool True)]) \<and>
   dependency_specs
     \<lparr>name = Some ''foo'', editable = True, path = Some ''./libs/foo'',
      specs = [], extras = []\<rparr> False \<noteq>
   Inr (TDict [(Some ''path'', TStr ''libs/foo''), (Some ''develop'', TBool True)])"
  by (simp add: dependency_specs_def strip_def is_space_def)

section \<open>Reconciling the wanted and the resolved file\<close>

lemma keys_dict_setitem:
  "map fst (dict_setitem d k v) =
     (if k \<in> set (map fst d) then map fst d else map fst d @ [k])"
  by (induction d) (auto simp: rev_image_eqI)

lemma map_of_dict_setitem: "map_of (dict_setitem d k v) = (map_of d)(k \<mapsto> v)"
  by (induction d) auto

lemma requirements_dict_named:
  "\<forall>r\<in>set rs. name r \<noteq> None \<Longrightarrow>
   requirements_dict d rs = Inr (fold (\<lambda>r d. dict_setitem d (canonical_name r) r) rs d)"
  by (induction rs arbitrary: d) (auto simp: canonical_name_def)

lemma requirements_dict_nameless:
  "\<exists>r\<in>set rs. name r = None \<Longrightarrow> requirements_dict d rs = Inl AttributeError"
  by (induction rs arbitrary: d) (auto split: option.splits)

lemma keys_fold_setitem:
  "map fst (fold (\<lambda>r d. dict_setitem d (f r) r) rs d) =
   map fst d @ filter (\<lambda>k. k \<notin> set (map fst d)) (first_occurrences (map f rs))"
proof (induction rs arbitrary: d)
  case Nil
  then show ?case by simp
next
  case (Cons r rs)
  show ?case
  proof (cases "f r \<in> set (map fst d)")
    case True
    then have "filter (\<lambda>k. k \<notin> set (map fst d)) (filter (\<lambda>y. y \<noteq> f r) (first_occurrences (map f rs)))
             = filter (\<lambda>k. k \<notin> set (map fst d)) (first_occurrences (map f rs))"
      by (auto intro: filter_cong)
    with True show ?thesis by (simp add: Cons.IH keys_dict_setitem)
  next
    case False
    have "filter (\<lambda>k. k \<notin> set (map fst d @ [f r])) (first_occurrences (map f rs))
        = filter (\<lambda>k. k \<notin> set (map fst d)) (filter (\<lambda>y. y \<noteq> f r) (first_occurrences (map f rs)))"
      by (auto intro: filter_cong)
    with False show ?thesis by (simp add: Cons.IH keys_dict_setitem)
  qed
qed

lemma find_append_cases:
  "find P (xs @ ys) = (case find P xs of None \<Rightarrow> find P ys | Some x \<Rightarrow> Some x)"
  by (induction xs) auto

lemma map_of_fold_setitem:
  "map_of (fold (\<lambda>r d. dict_setitem d (f r) r) rs d) k =
   (case find (\<lambda>r. f r = k) (rev rs) of None \<Rightarrow> map_of d k | Some r \<Rightarrow> Some r)"
proof (induction rs arbitrary: d)
  case Nil
  then show ?case by simp
next
  case (Cons r rs)
  show ?case
    by (simp add: Cons.IH map_of_dict_setitem find_append_cases split: option.splits)
qed

lemma drain_reconciled_found:
  "\<forall>k\<in>set ks. k \<noteq> Some ''pip-tools'' \<longrightarrow> map_of m k \<noteq> None \<Longrightarrow>
   \<exists>rs. drain (reconciled m ks) = Inr rs \<and>
        map Some rs = map (map_of m) (filter (\<lambda>k. k \<noteq> Some ''pip-tools'') ks)"
  by (induction ks) auto

lemma drain_reconciled_missing:
  "k \<in> set ks \<Longrightarrow> k \<noteq> Some ''pip-tools'' \<Longrightarrow> map_of m k = None \<Longrightarrow>
   \<exists>k'. drain (reconciled m ks) = Inl (KeyError k') \<and> k' \<in> set ks \<and>
        k' \<noteq> Some ''pip-tools'' \<and> map_of m k' = None"
proof (induction ks)
  case Nil
  then show ?case by simp
next
  case (Cons a ks)
  show ?case
  proof (cases "a \<noteq> Some ''pip-tools'' \<and> map_of m a = None")
    case True
    then show ?thesis by auto
  next
    case False
    then have "k \<in> set ks" using Cons.prems by auto
    then obtain k' where "drain (reconciled m ks) = Inl (KeyError k')" "k' \<in> set ks"
      "k' \<noteq> Some ''pip-tools''" "map_of m k' = None"
      using Cons by blast
    then show ?thesis using False by (auto split: option.splits)
  qed
qed

lemma isl_add_requirement_section:
  assumes "\<And>d. isl (add_requirements d g dev)"
  shows "isl (add_requirement_section pyproject g dev)"
  unfolding add_requirement_section_def Let_def
  by (simp only: split_def) (intro isl_bind_errI isl_bind_err assms)

lemma isl_drain_add_requirements:
  "isl (drain g) \<Longrightarrow> isl (add_requirements d g dev)"
proof (induction g arbitrary: d)
  case (Yield r g)
  then have "isl (drain g)" by (cases "drain g") simp_all
  then have "\<And>d'. isl (add_requirements d' g dev)" using Yield.IH by blast
  then show ?case
    by (auto intro!: isl_bind_errI)
qed simp_all


lemma set_first_occurrences [simp]: "set (first_occurrences xs) = set xs"
  by (induction xs) auto

lemma load_requirements_parsed:
  assumes "parse in_text = Inr requirements_in"
    and "parse (str_replace (package_hash_re_sub txt_text) [backslash] []) = Inr requirements_txt"
  shows "load_requirements parse fn in_text txt_text =
     (if filter (\<lambda>r. name r = None) requirements_in \<noteq> [] then
        Inl (ValueError (MissingEgg fn (filter (\<lambda>r. name r = None) requirements_in)))
      else
        bind_err (requirements_dict [] requirements_in) (\<lambda>requirements_in_map.
        bind_err (requirements_dict [] requirements_txt) (\<lambda>requirements_txt_map.
        if None \<in> set (map fst requirements_in_map) \<or>
           None \<in> set (map fst requirements_txt_map)
        then Inl (ValueError EditableWithoutEgg)
        else Inr (reconciled requirements_txt_map (map fst requirements_in_map)))))"
  using assms by (simp add: load_requirements_def Let_def)

lemma canonical_names_Some:
  "\<forall>r\<in>set rs. name r \<noteq> None \<Longrightarrow> None \<notin> canonical_name ` set rs"
  by (auto simp: canonical_name_def)

lemma find_Some_holds: "find P xs = Some x \<Longrightarrow> P x"
  by (induction xs) (auto split: if_splits)

lemma map_of_resolved:
  "map_of (fold (\<lambda>r d. dict_setitem d (canonical_name r) r) requirements_txt []) k =
   find (\<lambda>r. canonical_name r = k) (rev requirements_txt)"
  by (simp add: map_of_fold_setitem split: option.splits)

lemma map_of_resolved_None:
  "map_of (fold (\<lambda>r d. dict_setitem d (canonical_name r) r) requirements_txt []) k = None \<longleftrightarrow>
   k \<notin> canonical_name ` set requirements_txt"
  by (simp add: map_of_resolved find_None_iff) blast

lemma keys_fold_setitem_empty:
  "map fst (fold (\<lambda>r d. dict_setitem d (f r) r) rs []) = first_occurrences (map f rs)"
  by (simp add: keys_fold_setitem)

lemma key_set_fold_setitem:
  "fst ` set (fold (\<lambda>r d. dict_setitem d (f r) r) rs []) = f ` set rs"
  using arg_cong [OF keys_fold_setitem_empty, of set f rs] by simp

lemma load_requirements_named:
  assumes "parse in_text = Inr requirements_in"
    and "parse (str_replace (package_hash_re_sub txt_text) [backslash] []) = Inr requirements_txt"
    and "\<forall>r\<in>set requirements_in. name r \<noteq> None"
    and "\<forall>r\<in>set requirements_txt. name r \<noteq> None"
  shows "load_requirements parse fn in_text txt_text =
         Inr (reconciled (fold (\<lambda>r d. dict_setitem d (canonical_name r) r) requirements_txt [])
                (first_occurrences (map canonical_name requirements_in)))"
proof -
  have 1: "filter (\<lambda>r. name r = None) requirements_in = []"
    using assms(3) by (simp add: filter_empty_conv)
  have 2: "None \<notin> canonical_name ` set requirements_in"
    using assms(3) by (rule canonical_names_Some)
  have 3: "None \<notin> canonical_name ` set requirements_txt"
    using assms(4) by (rule canonical_names_Some)
  show ?thesis
    using 2 3
    by (simp add: load_requirements_parsed [OF assms(1,2)] 1
        requirements_dict_named [OF assms(3)] requirements_dict_named [OF assms(4)]
        keys_fold_setitem_empty key_set_fold_setitem)
qed

text \<open>
  Claim C6. When the wanted file has entries without a name, \<open>load_requirements\<close>
  raises one \<open>ValueError\<close>, and its message is built from the list of all those
  entries, in the order of the file: the check is not left at the first of them.
\<close>

theorem missing_names_collected:
  assumes "parse in_text = Inr requirements_in"
    and "parse (str_replace (package_hash_re_sub txt_text) [backslash] []) = Inr requirements_txt"
    and "\<exists>r\<in>set requirements_in. name r = None"
  shows "load_requirements parse fn in_text txt_text =
         Inl (ValueError (MissingEgg fn (filter (\<lambda>r. name r = None) requirements_in)))"
proof -
  have "filter (\<lambda>r. name r = None) requirements_in \<noteq> []"
    using assms(3) by (simp add: filter_empty_conv)
  then show ?thesis
    by (simp add: load_requirements_parsed [OF assms(1,2)])
qed

text \<open>
  The test for a \<open>None\<close> key that follows the two comprehensions never raises its
  error: whenever both files parse, the result is another one.
\<close>

lemma editable_without_egg_unreachable:
  assumes "parse in_text = Inr requirements_in"
    and "parse (str_replace (package_hash_re_sub txt_text) [backslash] []) = Inr requirements_txt"
  shows "load_requirements parse fn in_text txt_text \<noteq> Inl (ValueError EditableWithoutEgg)"
proof (cases "\<forall>r\<in>set requirements_in. name r \<noteq> None")
  case False
  then have "\<exists>r\<in>set requirements_in. name r = None"
    by auto
  then have "filter (\<lambda>r. name r = None) requirements_in \<noteq> []"
    by (simp add: filter_empty_conv)
  then show ?thesis
    by (simp add: load_requirements_parsed [OF assms])
next
  case named_in: True
  show ?thesis
  proof (cases "\<forall>r\<in>set requirements_txt. name r \<noteq> None")
    case True
    then show ?thesis
      by (simp add: load_requirements_named [OF assms named_in])
  next
    case False
    then have "\<exists>r\<in>set requirements_txt. name r = None"
      by auto
    moreover have "filter (\<lambda>r. name r = None) requirements_in = []"
      using named_in by (simp add: filter_empty_conv)
    ultimately show ?thesis
      by (simp add: load_requirements_parsed [OF assms] requirements_dict_named [OF named_in]
          requirements_dict_nameless)
  qed
qed

text \<open>
  Claim C3 does not hold for the resolved file. When every wanted entry has a name and
  some resolved entry has none, the dictionary comprehension over the resolved file
  calls \<open>replace\<close> on \<open>None\<close>: the error is an \<open>AttributeError\<close>, raised before
  the test for a \<open>None\<close> key is reached, and not the \<open>ValueError\<close> of that test.
\<close>

theorem resolved_nameless_attribute_error:
  assumes "parse in_text = Inr requirements_in"
    and "parse (str_replace (package_hash_re_sub txt_text) [backslash] []) = Inr requirements_txt"
    and "\<forall>r\<in>set requirements_in. name r \<noteq> None"
    and "\<exists>r\<in>set requirements_txt. name r = None"
  shows "load_requirements parse fn in_text txt_text = Inl AttributeError"
proof -
  have "filter (\<lambda>r. name r = None) requirements_in = []"
    using assms(3) by (simp add: filter_empty_conv)
  then show ?thesis
    by (simp add: load_requirements_parsed [OF assms(1,2)]
        requirements_dict_named [OF assms(3)] requirements_dict_nameless [OF assms(4)])
qed

text \<open>
  Claim C8. When every entry of both files has a name and every wanted name other than
  \<open>pip-tools\<close> occurs in the resolved file, \<open>load_requirements\<close> returns an iterable
  that yields, for each canonical name of the wanted file in the order of its first
  occurrence and with \<open>pip-tools\<close> left out, the record of the resolved file filed
  under that name (the last one, when the resolved file repeats a name).
\<close>

theorem reconciled_sequence:
  assumes "parse in_text = Inr requirements_in"
    and "parse (str_replace (package_hash_re_sub txt_text) [backslash] []) = Inr requirements_txt"
    and "\<forall>r\<in>set requirements_in. name r \<noteq> None"
    and "\<forall>r\<in>set requirements_txt. name r \<noteq> None"
    and "\<forall>r\<in>set requirements_in. canonical_name r \<noteq> Some ''pip-tools'' \<longrightarrow>
           canonical_name r \<in> canonical_name ` set requirements_txt"
  shows "\<exists>g rs. load_requirements parse fn in_text txt_text = Inr g \<and> drain g = Inr rs \<and>
           map Some rs =
             map (\<lambda>k. find (\<lambda>r. canonical_name r = k) (rev requirements_txt))
               (filter (\<lambda>k. k \<noteq> Some ''pip-tools'')
                  (first_occurrences (map canonical_name requirements_in))) \<and>
           map canonical_name rs =
             filter (\<lambda>k. k \<noteq> Some ''pip-tools'')
               (first_occurrences (map canonical_name requirements_in))"
proof -
  let ?m = "fold (\<lambda>r d. dict_setitem d (canonical_name r) r) requirements_txt []"
  let ?ks = "first_occurrences (map canonical_name requirements_in)"
  let ?want = "filter (\<lambda>k. k \<noteq> Some ''pip-tools'') ?ks"
  have "\<forall>k\<in>set ?ks. k \<noteq> Some ''pip-tools'' \<longrightarrow> map_of ?m k \<noteq> None"
    using assms(5) by (simp add: map_of_resolved_None)
  then obtain rs where rs: "drain (reconciled ?m ?ks) = Inr rs"
    "map Some rs = map (map_of ?m) ?want"
    using drain_reconciled_found by blast
  have found: "map Some rs = map (\<lambda>k. find (\<lambda>r. canonical_name r = k) (rev requirements_txt)) ?want"
    using rs(2) by (simp add: map_of_resolved)
  have "map canonical_name rs = ?want"
  proof (rule nth_equalityI)
    show len: "length (map canonical_name rs) = length ?want"
      using arg_cong [OF found, of length] by simp
    fix i assume "i < length (map canonical_name rs)"
    then have i: "i < length rs" "i < length ?want" using len by simp_all
    have "Some (rs ! i) = find (\<lambda>r. canonical_name r = ?want ! i) (rev requirements_txt)"
      using arg_cong [OF found, of "\<lambda>xs. xs ! i"] i by simp
    then have "canonical_name (rs ! i) = ?want ! i"
      using find_Some_holds [of "\<lambda>r. canonical_name r = ?want ! i" "rev requirements_txt" "rs ! i"]
      by simp
    then show "map canonical_name rs ! i = ?want ! i" using i by simp
  qed
  then show ?thesis
    using rs(1) found load_requirements_named [OF assms(1-4)] by blast
qed

text \<open>
  Claim C4. When a wanted entry other than \<open>pip-tools\<close> has no counterpart in the
  resolved file, reading the returned iterable to its end raises a \<open>KeyError\<close> on a
  wanted name that the resolved file lacks, and \<open>add_requirement_section\<close> fails on
  that iterable whatever the manifest: the entry is neither skipped nor given a
  version.
\<close>

theorem missing_counterpart_fails:
  assumes "parse in_text = Inr requirements_in"
    and "parse (str_replace (package_hash_re_sub txt_text) [backslash] []) = Inr requirements_txt"
    and "\<forall>r\<in>set requirements_in. name r \<noteq> None"
    and "\<forall>r\<in>set requirements_txt. name r \<noteq> None"
    and "r \<in> set requirements_in"
    and "canonical_name r \<noteq> Some ''pip-tools''"
    and "canonical_name r \<notin> canonical_name ` set requirements_txt"
  shows "\<exists>g k. load_requirements parse fn in_text txt_text = Inr g \<and>
           drain g = Inl (KeyError k) \<and> k \<noteq> Some ''pip-tools'' \<and>
           k \<in> canonical_name ` set requirements_in \<and>
           k \<notin> canonical_name ` set requirements_txt \<and>
           (\<forall>pyproject dev. isl (add_requirement_section pyproject g dev))"
proof -
  let ?m = "fold (\<lambda>r d. dict_setitem d (canonical_name r) r) requirements_txt []"
  let ?ks = "first_occurrences (map canonical_name requirements_in)"
  have "canonical_name r \<in> set ?ks" using assms(5) by simp
  moreover have "map_of ?m (canonical_name r) = None"
    using assms(7) by (simp add: map_of_resolved_None)
  ultimately obtain k where k: "drain (reconciled ?m ?ks) = Inl (KeyError k)" "k \<in> set ?ks"
    "k \<noteq> Some ''pip-tools''" "map_of ?m k = None"
    using drain_reconciled_missing [OF _ assms(6)] by blast
  have "k \<notin> canonical_name ` set requirements_txt"
    using k(4) by (simp add: map_of_resolved_None)
  moreover have "k \<in> canonical_name ` set requirements_in" using k(2) by simp
  moreover have "isl (add_requirement_section pyproject (reconciled ?m ?ks) dev)" for pyproject dev
    by (rule isl_add_requirement_section) (simp add: isl_drain_add_requirements k(1))
  ultimately show ?thesis
    using k(1,3) load_requirements_named [OF assms(1-4)] by blast
qed


lemma example_prepass: "str_replace (package_hash_re_sub ''resolved'') [backslash] [] = ''resolved''"
  by code_simp

theorem missing_names_collected_witness:
  "load_requirements
     (example_parse [example_nameless, hd example_resolved, example_nameless\<lparr>path := Some ''file:./libs/bar''\<rparr>]
        example_resolved)
     ''requirements'' ''wanted'' ''resolved'' =
   Inl (ValueError (MissingEgg ''requirements''
          [example_nameless, example_nameless\<lparr>path := Some ''file:./libs/bar''\<rparr>]))"
proof -
  let ?in = "[example_nameless, hd example_resolved, example_nameless\<lparr>path := Some ''file:./libs/bar''\<rparr>]"
  let ?parse = "example_parse ?in example_resolved"
  have 1: "?parse ''wanted'' = Inr ?in"
    by (simp add: example_parse_def)
  have 2: "?parse (str_replace (package_hash_re_sub ''resolved'') [backslash] []) = Inr example_resolved"
    by (simp add: example_parse_def example_prepass)
  have 3: "\<exists>r\<in>set ?in. name r = None"
    by (simp add: example_nameless_def)
  show ?thesis
    using missing_names_collected [OF 1 2 3, of "''requirements''"]
    by (simp add: example_nameless_def example_resolved_def)
qed

theorem resolved_nameless_attribute_error_witness:
  "load_requirements
     (example_parse example_wanted (example_resolved @ [example_nameless]))
     ''requirements'' ''wanted'' ''resolved'' = Inl AttributeError"
proof -
  let ?parse = "example_parse example_wanted (example_resolved @ [example_nameless])"
  have 1: "?parse ''wanted'' = Inr example_wanted"
    by (simp add: example_parse_def)
  have 2: "?parse (str_replace (package_hash_re_sub ''resolved'') [backslash] []) =
           Inr (example_resolved @ [example_nameless])"
    by (simp add: example_parse_def example_prepass)
  have 3: "\<forall>r\<in>set example_wanted. name r \<noteq> None"
    by (simp add: example_wanted_def)
  have 4: "\<exists>r\<in>set (example_resolved @ [example_nameless]). name r = None"
    by (simp add: example_nameless_def)
  show ?thesis
    using resolved_nameless_attribute_error [OF 1 2 3 4] by simp
qed

lemma example_canonical_names:
  "map canonical_name example_wanted =
     [Some ''pip-tools'', Some ''typing-extensions'', Some ''requests'']"
  "map canonical_name example_resolved =
     [Some ''requests'', Some ''typing-extensions'', Some ''urllib3'']"
  by (simp_all add: example_wanted_def example_resolved_def canonical_name_def)

theorem reconciled_sequence_witness:
  "\<exists>g. load_requirements (example_parse example_wanted example_resolved)
          ''requirements'' ''wanted'' ''resolved'' = Inr g \<and>
        drain g = Inr [example_resolved ! 1, example_resolved ! 0]"
proof -
  let ?parse = "example_parse example_wanted example_resolved"
  have 1: "?parse ''wanted'' = Inr example_wanted"
    by (simp add: example_parse_def)
  have 2: "?parse (str_replace (package_hash_re_sub ''resolved'') [backslash] []) =
           Inr example_resolved"
    by (simp add: example_parse_def example_prepass)
  have 3: "\<forall>r\<in>set example_wanted. name r \<noteq> None"
    by (simp add: example_wanted_def)
  have 4: "\<forall>r\<in>set example_resolved. name r \<noteq> None"
    by (simp add: example_resolved_def)
  have 5: "\<forall>r\<in>set example_wanted. canonical_name r \<noteq> Some ''pip-tools'' \<longrightarrow>
             canonical_name r \<in> canonical_name ` set example_resolved"
    by (simp add: example_wanted_def example_resolved_def canonical_name_def)
  have 6: "map (\<lambda>k. find (\<lambda>r. canonical_name r = k) (rev example_resolved))
             (filter (\<lambda>k. k \<noteq> Some ''pip-tools'')
                (first_occurrences (map canonical_name example_wanted))) =
           map Some [example_resolved ! 1, example_resolved ! 0]"
    unfolding example_canonical_names
    by (simp add: example_resolved_def canonical_name_def)
  show ?thesis
    using reconciled_sequence [OF 1 2 3 4 5, of "''requirements''"] unfolding 6
    by (metis map_injective inj_Some)
qed

theorem missing_counterpart_fails_witness:
  "\<exists>g. load_requirements (example_parse example_wanted (take 1 example_resolved))
          ''requirements'' ''wanted'' ''resolved'' = Inr g \<and>
        drain g = Inl (KeyError (Some ''typing-extensions'')) \<and>
        isl (add_requirement_section (TDict []) g False)"
proof -
  let ?parse = "example_parse example_wanted (take 1 example_resolved)"
  have 1: "?parse ''wanted'' = Inr example_wanted"
    by (simp add: example_parse_def)
  have 2: "?parse (str_replace (package_hash_re_sub ''resolved'') [backslash] []) =
           Inr (take 1 example_resolved)"
    by (simp add: example_parse_def example_prepass)
  have 3: "\<forall>r\<in>set example_wanted. name r \<noteq> None"
    by (simp add: example_wanted_def)
  have 4: "\<forall>r\<in>set (take 1 example_resolved). name r \<noteq> None"
    by (simp add: example_resolved_def)
  have 5: "example_wanted ! 1 \<in> set example_wanted"
    by (simp add: example_wanted_def)
  have 6: "canonical_name (example_wanted ! 1) \<noteq> Some ''pip-tools''"
    by (simp add: example_wanted_def canonical_name_def)
  have 7: "canonical_name (example_wanted ! 1) \<notin> canonical_name ` set (take 1 example_resolved)"
    by (simp add: example_wanted_def example_resolved_def canonical_name_def)
  obtain g k where g: "load_requirements ?parse ''requirements'' ''wanted'' ''resolved'' = Inr g"
    "drain g = Inl (KeyError k)" "k \<noteq> Some ''pip-tools''"
    "k \<in> canonical_name ` set example_wanted"
    "k \<notin> canonical_name ` set (take 1 example_resolved)"
    "\<forall>pyproject dev. isl (add_requirement_section pyproject g dev)"
    using missing_counterpart_fails [OF 1 2 3 4 5 6 7, of "''requirements''"] by blast
  have "k = Some ''typing-extensions''"
    using g(3,4,5) by (simp add: example_wanted_def example_resolved_def canonical_name_def)
  then show ?thesis using g by blast
qed

section \<open>Unsupported, single-constraint and extras-bearing requirements\<close>

lemma unsupported_specs:
  "\<not> editable r \<Longrightarrow> length (specs r) \<noteq> 1 \<Longrightarrow> dependency_specs r dev = Inl NotImplementedError"
  by (simp add: dependency_specs_def)

lemma add_requirements_yields_unsupported:
  "yields g r \<Longrightarrow> \<not> editable r \<Longrightarrow> length (specs r) \<noteq> 1 \<Longrightarrow>
   isl (add_requirements deps g dev)"
proof (induction g arbitrary: deps)
  case (Yield y g)
  show ?case
  proof (cases "y = r")
    case True
    then show ?thesis using Yield.prems by (simp add: unsupported_specs)
  next
    case False
    then have "yields g r" using Yield.prems by simp
    then have "\<And>d. isl (add_requirements d g dev)" using Yield by blast
    then show ?thesis by (auto intro!: isl_bind_errI)
  qed
qed simp_all

text \<open>
  Claim C5. A requirement that is not editable and has no version constraint, or more
  than one, makes the translation raise \<open>NotImplementedError\<close>: the loop stops at it
  with that error, and \<open>add_requirement_section\<close> returns no manifest for any iterable
  that yields such a requirement, so no entry is written out for it.
\<close>

theorem unsupported_specs_raise:
  assumes "\<not> editable r" and "length (specs r) = 0 \<or> 1 < length (specs r)"
  shows "dependency_specs r dev = Inl NotImplementedError \<and>
         add_requirements deps (Yield r rest) dev = Inl NotImplementedError \<and>
         (yields g r \<longrightarrow> isl (add_requirement_section pyproject g dev))"
proof -
  have n: "length (specs r) \<noteq> 1" using assms(2) by auto
  have "isl (add_requirement_section pyproject g dev)" if "yields g r"
    by (rule isl_add_requirement_section)
       (rule add_requirements_yields_unsupported [OF that assms(1) n])
  then show ?thesis
    by (simp add: unsupported_specs [OF assms(1) n])
qed

theorem unsupported_specs_raise_witness:
  "dependency_specs (last example_wanted) False = Inl NotImplementedError \<and>
   isl (add_requirement_section (TDict []) (Yield (last example_wanted) StopIteration) False) \<and>
   dependency_specs
     \<lparr>name = Some ''django'', editable = False, path = None,
      specs = [(''>='', ''3.2''), (''<'', ''4.0'')], extras = []\<rparr> True =
   Inl NotImplementedError"
proof -
  let ?r = "last example_wanted"
  let ?s = "\<lparr>name = Some ''django'', editable = False, path = None,
             specs = [(''>='', ''3.2''), (''<'', ''4.0'')], extras = []\<rparr>"
  have 1: "\<not> editable ?r" "length (specs ?r) = 0 \<or> 1 < length (specs ?r)"
    by (simp_all add: example_wanted_def)
  have 2: "\<not> editable ?s" "length (specs ?s) = 0 \<or> 1 < length (specs ?s)"
    by simp_all
  have 3: "yields (Yield ?r StopIteration) ?r" by simp
  show ?thesis
    using unsupported_specs_raise [OF 1, of False "TDict []" StopIteration "Yield ?r StopIteration" "TDict []"]
      unsupported_specs_raise [OF 2, of True "TDict []" StopIteration StopIteration "TDict []"] 3
    by blast
qed

text \<open>
  Claim C9. A requirement that is not editable, has exactly one version constraint and
  no extras translates to the string made of a caret and the version of the
  constraint, and that string is what the loop stores under the requirement's name.
\<close>

theorem single_constraint_scalar:
  assumes "\<not> editable r" and "specs r = [(operator, version)]" and "extras r = []"
  shows "dependency_specs r dev = Inr (TStr (''^'' @ version)) \<and>
         add_requirements (TDict d) (Yield r StopIteration) dev =
           Inr (TDict (dict_setitem d (name r) (TStr (''^'' @ version))))"
  using assms by (simp add: dependency_specs_def setitem_def)

theorem single_constraint_scalar_witness:
  "dependency_specs (hd example_resolved) False = Inr (TStr ''^2.28.0'') \<and>
   add_requirements (TDict []) (Yield (hd example_resolved) StopIteration) False =
     Inr (TDict [(Some ''requests'', TStr ''^2.28.0'')])"
proof -
  have 1: "\<not> editable (hd example_resolved)"
    and 2: "specs (hd example_resolved) = [(''=='', ''2.28.0'')]"
    and 3: "extras (hd example_resolved) = []"
    by (simp_all add: example_resolved_def)
  show ?thesis
    using single_constraint_scalar [OF 1 2 3, of False "[]"]
    by (simp add: example_resolved_def setitem_def)
qed

text \<open>
  Claim C10, as the code has it. For an editable requirement of the dev section that
  has a path and declares extras, the \<open>extras\<close> field of the entry is the list of the
  requirement's own extras: it takes the place of \<open>["dev"]\<close>, which is not merged
  into it.
\<close>

theorem editable_dev_extras_replaced:
  assumes "editable r" and "path r = Some p" and "extras r \<noteq> []"
  shows "dependency_specs r True =
         Inr (TDict [(Some ''path'', TStr (strip (drop 5 p))), (Some ''develop'', TBool True),
                     (Some ''extras'', TList (map TStr (extras r)))])"
  using assms by (simp add: dependency_specs_def setitem_def)

theorem editable_dev_extras_replaced_witness:
  "dependency_specs (example_nameless\<lparr>name := Some ''foo'', extras := [''postgres'', ''redis'']\<rparr>) True =
   Inr (TDict [(Some ''path'', TStr ''./libs/foo''), (Some ''develop'', TBool True),
               (Some ''extras'', TList [TStr ''postgres'', TStr ''redis''])])"
proof -
  let ?r = "example_nameless\<lparr>name := Some ''foo'', extras := [''postgres'', ''redis'']\<rparr>"
  have 1: "editable ?r" and 2: "path ?r = Some ''file:./libs/foo''" and 3: "extras ?r \<noteq> []"
    by (simp_all add: example_nameless_def)
  show ?thesis
    using editable_dev_extras_replaced [OF 1 2 3]
    by (simp add: example_nameless_def strip_def is_space_def)
qed

text \<open>
  Claim C10 as stated fails for an editable requirement without a path, such as one
  from a version-control URL: slicing the path raises \<open>TypeError\<close> before the extras
  are looked at, and there is no entry.
\<close>

theorem editable_dev_extras_no_path_counterexample:
  "dependency_specs
     \<lparr>name = Some ''foo'', editable = True, path = None, specs = [],
      extras = [''postgres'']\<rparr> True = Inl TypeError \<and>
   add_requirement_section (TDict [])
     (Yield \<lparr>name = Some ''foo'', editable = True, path = None, specs = [],
             extras = [''postgres'']\<rparr> StopIteration) True = Inl TypeError"
  by (simp add: dependency_specs_def add_requirement_section_def setdefault_def)

section \<open>The private registry\<close>

lemma dict_setitem_twice: "dict_setitem (dict_setitem d k v) k v' = dict_setitem d k v'"
  by (induction d) auto

lemma source_name_set_url [simp]: "source_name (set_url s url) = source_name s"
  by (cases s) (simp_all add: source_name_def set_url_def map_of_dict_setitem)

lemma named_set_url [simp]: "named nm (set_url s url) = named nm s"
  by (simp add: named_def)

lemma set_url_twice [simp]: "set_url (set_url s u1) u2 = set_url s u2"
  by (cases s) (simp_all add: set_url_def dict_setitem_twice)

lemma update_source_wf:
  "list_all (\<lambda>s. source_name s \<noteq> None) sources \<Longrightarrow>
   update_source sources nm url =
     Inr (let i = length (takeWhile (\<lambda>s. \<not> named nm s) sources)
          in if i < length sources then Some (sources[i := set_url (sources ! i) url])
             else None)"
proof (induction sources)
  case Nil
  then show ?case by simp
next
  case (Cons s sources)
  then obtain d v where s: "s = TDict d" "map_of d (Some ''name'') = Some v"
    by (cases s) (auto simp: source_name_def)
  show ?case
  proof (cases "v = TStr nm")
    case True
    then show ?thesis using s by (simp add: named_def source_name_def set_url_def)
  next
    case False
    then have "\<not> named nm s" using s by (simp add: named_def source_name_def)
    then show ?thesis using s False Cons by (simp add: Let_def)
  qed
qed

lemma merge_source_wf:
  "list_all (\<lambda>s. source_name s \<noteq> None) sources \<Longrightarrow>
   merge_source (TList sources) nm url = Inr (TList (spec_update_or_append sources nm url))"
  by (simp add: merge_source_def update_source_wf spec_update_or_append_def Let_def)

lemma split_colon_pair:
  "CHR '':'' \<notin> set nm \<Longrightarrow> split_colon (nm @ CHR '':'' # url) = [nm, url]"
proof -
  assume a: "CHR '':'' \<notin> set nm"
  then have "\<And>x. x \<in> set nm \<Longrightarrow> x \<noteq> CHR '':''" by blast
  then have "takeWhile (\<lambda>c. c \<noteq> CHR '':'') (nm @ CHR '':'' # url) = nm"
    and "dropWhile (\<lambda>c. c \<noteq> CHR '':'') (nm @ CHR '':'' # url) = CHR '':'' # url"
    by (simp_all add: takeWhile_append2 dropWhile_append2)
  then show ?thesis by (simp add: split_colon_def)
qed


lemma registry_sourcesD:
  assumes "registry_sources pyproject = Some sources"
  obtains p t po where "pyproject = TDict p" "map_of p (Some ''tool'') = Some (TDict t)"
    "map_of t (Some ''poetry'') = Some (TDict po)"
    "map_of po (Some ''source'') = None \<and> sources = [] \<or>
     map_of po (Some ''source'') = Some (TList sources)"
proof -
  obtain p where p: "pyproject = TDict p"
    using assms by (cases pyproject) (simp_all add: registry_sources_def)
  obtain t where t: "map_of p (Some ''tool'') = Some (TDict t)"
    using assms unfolding p registry_sources_def
    by (simp split: option.splits toml.splits)
  obtain po where po: "map_of t (Some ''poetry'') = Some (TDict po)"
    using assms unfolding p registry_sources_def
    by (simp add: t split: option.splits toml.splits)
  have "map_of po (Some ''source'') = None \<and> sources = [] \<or>
        map_of po (Some ''source'') = Some (TList sources)"
    using assms unfolding p registry_sources_def
    by (simp add: t po split: option.splits toml.splits)
  then show thesis using that p t po by blast
qed

lemma add_private_repo_sources:
  assumes "CHR '':'' \<notin> set nm"
    and "registry_sources pyproject = Some sources"
    and "list_all (\<lambda>s. source_name s \<noteq> None) sources"
  shows "\<exists>p'. add_private_repo pyproject (nm @ CHR '':'' # url) = Inr p' \<and>
              registry_sources p' = Some (spec_update_or_append sources nm url)"
proof -
  obtain p t po where p: "pyproject = TDict p"
    and t: "map_of p (Some ''tool'') = Some (TDict t)"
    and po: "map_of t (Some ''poetry'') = Some (TDict po)"
    and src: "map_of po (Some ''source'') = None \<and> sources = [] \<or>
              map_of po (Some ''source'') = Some (TList sources)"
    using registry_sourcesD [OF assms(2)] by blast
  have m: "merge_source (TList sources) nm url = Inr (TList (spec_update_or_append sources nm url))"
    using assms(3) by (rule merge_source_wf)
  from src show ?thesis
  proof
    assume "map_of po (Some ''source'') = None \<and> sources = []"
    then show ?thesis
      using m
      by (simp add: add_private_repo_def split_colon_pair [OF assms(1)] p t po setdefault_def
          write_back_def registry_sources_def map_of_dict_setitem)
  next
    assume "map_of po (Some ''source'') = Some (TList sources)"
    then show ?thesis
      using m
      by (simp add: add_private_repo_def split_colon_pair [OF assms(1)] p t po setdefault_def
          write_back_def registry_sources_def map_of_dict_setitem)
  qed
qed

lemma list_ex_takeWhile:
  "list_ex P xs \<longleftrightarrow> length (takeWhile (\<lambda>x. \<not> P x) xs) < length xs"
  by (induction xs) auto

lemma spec_update_or_append_found:
  assumes "list_ex (named nm) sources"
  shows "\<exists>before s after. sources = before @ s # after \<and> \<not> list_ex (named nm) before \<and>
           named nm s \<and> spec_update_or_append sources nm url = before @ set_url s url # after"
proof -
  let ?before = "takeWhile (\<lambda>x. \<not> named nm x) sources"
  let ?rest = "dropWhile (\<lambda>x. \<not> named nm x) sources"
  have i: "length ?before < length sources"
    using assms by (simp add: list_ex_takeWhile)
  then have "?rest \<noteq> []"
    by (metis append_Nil2 less_irrefl takeWhile_dropWhile_id)
  then obtain s after where r: "?rest = s # after"
    by (cases ?rest) auto
  have split: "sources = ?before @ s # after"
    using takeWhile_dropWhile_id [of "\<lambda>x. \<not> named nm x" sources] r by simp
  have s: "named nm s"
    using hd_dropWhile [of "\<lambda>x. \<not> named nm x" sources] r by simp
  have nb: "\<not> list_ex (named nm) ?before"
    by (auto simp: list_ex_iff dest: set_takeWhileD)
  have "sources ! length ?before = s"
    using split by (metis nth_append_length)
  moreover have "sources[length ?before := set_url s url] = ?before @ set_url s url # after"
    using split by (metis list_update_length)
  ultimately have "spec_update_or_append sources nm url = ?before @ set_url s url # after"
    using i by (simp add: spec_update_or_append_def Let_def)
  then show ?thesis using split s nb by blast
qed

lemma spec_update_or_append_missing:
  assumes "\<not> list_ex (named nm) sources"
  shows "spec_update_or_append sources nm url =
         sources @ [TDict [(Some ''name'', TStr nm), (Some ''url'', TStr url)]]"
  using assms by (simp add: spec_update_or_append_def list_ex_takeWhile Let_def)

lemma spec_update_or_append_length:
  "list_ex (named nm) sources \<Longrightarrow> length (spec_update_or_append sources nm url) = length sources"
  by (simp add: spec_update_or_append_def list_ex_takeWhile Let_def)

lemma spec_update_or_append_names:
  "list_ex (named nm) sources \<Longrightarrow>
   map source_name (spec_update_or_append sources nm url) = map source_name sources"
  using spec_update_or_append_found [of nm sources url] by auto

lemma named_new [simp]:
  "named nm (TDict [(Some ''name'', TStr nm), (Some ''url'', TStr url)])"
  by (simp add: named_def source_name_def)

lemma spec_update_or_append_count:
  "length (filter (named nm) (spec_update_or_append sources nm url)) =
   (if list_ex (named nm) sources then length (filter (named nm) sources) else 1)"
proof (cases "list_ex (named nm) sources")
  case True
  then obtain before s after where "sources = before @ s # after" "named nm s"
    "spec_update_or_append sources nm url = before @ set_url s url # after"
    using spec_update_or_append_found by blast
  then show ?thesis using True by simp
next
  case False
  then have "filter (named nm) sources = []"
    by (simp add: list_ex_iff filter_empty_conv)
  then show ?thesis using False by (simp add: spec_update_or_append_missing)
qed

lemma find_append_unnamed:
  "\<not> list_ex P xs \<Longrightarrow> find P (xs @ ys) = find P ys"
  by (induction xs) auto

lemma source_url_set_url:
  "source_name s \<noteq> None \<Longrightarrow> source_url (set_url s url) = Some (TStr url)"
  by (cases s) (simp_all add: source_name_def source_url_def set_url_def map_of_dict_setitem)

lemma spec_update_or_append_url:
  "\<exists>e. find (named nm) (spec_update_or_append sources nm url) = Some e \<and>
        source_url e = Some (TStr url)"
proof (cases "list_ex (named nm) sources")
  case True
  then obtain before s after where "\<not> list_ex (named nm) before" "named nm s"
    "spec_update_or_append sources nm url = before @ set_url s url # after"
    using spec_update_or_append_found by blast
  then show ?thesis
    by (simp add: find_append_unnamed source_url_set_url named_def)
next
  case False
  then show ?thesis
    by (simp add: spec_update_or_append_missing find_append_unnamed source_url_def)
qed

lemma spec_update_or_append_wf:
  assumes "list_all (\<lambda>s. source_name s \<noteq> None) sources"
  shows "list_all (\<lambda>s. source_name s \<noteq> None) (spec_update_or_append sources nm url)"
proof (cases "list_ex (named nm) sources")
  case True
  then obtain before s after where "sources = before @ s # after"
    "spec_update_or_append sources nm url = before @ set_url s url # after"
    using spec_update_or_append_found by blast
  then show ?thesis using assms by simp
next
  case False
  then show ?thesis using assms
    by (simp add: spec_update_or_append_missing source_name_def)
qed

lemma spec_update_or_append_twice:
  "spec_update_or_append (spec_update_or_append sources nm url1) nm url2 =
   spec_update_or_append sources nm url2"
proof (cases "list_ex (named nm) sources")
  case True
  then obtain before s after where b: "sources = before @ s # after"
    "\<not> list_ex (named nm) before" "named nm s"
    "spec_update_or_append sources nm url1 = before @ set_url s url1 # after"
    using spec_update_or_append_found by blast
  have tw: "takeWhile (\<lambda>x. \<not> named nm x) (before @ x # after) = before" if "named nm x" for x
    using b(2) that by (simp add: list_ex_iff takeWhile_append2)
  have "spec_update_or_append (before @ set_url s url1 # after) nm url2 =
        before @ set_url (set_url s url1) url2 # after"
    using b(3) by (simp add: spec_update_or_append_def tw)
  moreover have "spec_update_or_append (before @ s # after) nm url2 = before @ set_url s url2 # after"
    using b(3) by (simp add: spec_update_or_append_def tw)
  ultimately show ?thesis using b(1,4) by simp
next
  case False
  let ?new = "TDict [(Some ''name'', TStr nm), (Some ''url'', TStr url1)]"
  have tw: "takeWhile (\<lambda>x. \<not> named nm x) (sources @ [?new]) = sources"
    using False by (simp add: list_ex_iff takeWhile_append2)
  have "spec_update_or_append (sources @ [?new]) nm url2 = sources @ [set_url ?new url2]"
    by (simp add: spec_update_or_append_def tw)
  then show ?thesis
    using False by (simp add: spec_update_or_append_missing set_url_def)
qed


lemma find_filter_hd:
  "find P xs = Some e \<Longrightarrow> \<exists>rest. filter P xs = e # rest"
  by (induction xs) (auto split: if_splits)

lemma spec_update_or_append_single:
  assumes "length (filter (named nm) sources) \<le> 1"
  shows "\<exists>e. filter (named nm) (spec_update_or_append sources nm url) = [e] \<and>
             source_url e = Some (TStr url)"
proof -
  obtain e where e: "find (named nm) (spec_update_or_append sources nm url) = Some e"
    "source_url e = Some (TStr url)"
    using spec_update_or_append_url [of nm sources url] by blast
  then obtain rest where r: "filter (named nm) (spec_update_or_append sources nm url) = e # rest"
    using find_filter_hd [OF e(1)] by blast
  have "length (filter (named nm) (spec_update_or_append sources nm url)) \<le> 1"
    using assms by (simp add: spec_update_or_append_count)
  then have "rest = []" using r by simp
  then show ?thesis using r e(2) by blast
qed

text \<open>
  Claim C7, as the code has it. Take a manifest whose registry-source list holds tables
  with a name each, and a \<open>name:url\<close> argument. \<open>add_private_repo\<close> succeeds and
  leaves the list that the update-or-append of the specification gives: when an entry
  bears the name, the first such entry has its URL set in place, and the length of the
  list and the names in their order are unchanged; otherwise a new entry of the name
  and the URL is appended at the end. A second call with the same name and another URL
  succeeds too and leaves the list that one call with the second URL gives: the number
  of entries bearing the name is what it was, or one when there was none, and the
  first of them bears the second URL. When the list held at most one entry of the name
  to begin with, the two calls leave exactly one entry of the name, and it bears the
  second URL.
\<close>

theorem add_private_repo_update_or_append:
  assumes "CHR '':'' \<notin> set nm"
    and "registry_sources pyproject = Some sources"
    and "list_all (\<lambda>s. source_name s \<noteq> None) sources"
  shows "\<exists>p' p''.
           add_private_repo pyproject (nm @ CHR '':'' # url1) = Inr p' \<and>
           registry_sources p' = Some (spec_update_or_append sources nm url1) \<and>
           add_private_repo p' (nm @ CHR '':'' # url2) = Inr p'' \<and>
           registry_sources p'' = Some (spec_update_or_append sources nm url2) \<and>
           (list_ex (named nm) sources \<longrightarrow>
              length (spec_update_or_append sources nm url1) = length sources \<and>
              map source_name (spec_update_or_append sources nm url1) = map source_name sources \<and>
              (\<exists>before s after. sources = before @ s # after \<and>
                 \<not> list_ex (named nm) before \<and> named nm s \<and>
                 spec_update_or_append sources nm url1 = before @ set_url s url1 # after)) \<and>
           (\<not> list_ex (named nm) sources \<longrightarrow>
              spec_update_or_append sources nm url1 =
                sources @ [TDict [(Some ''name'', TStr nm), (Some ''url'', TStr url1)]]) \<and>
           length (filter (named nm) (spec_update_or_append sources nm url2)) =
             (if list_ex (named nm) sources then length (filter (named nm) sources) else 1) \<and>
           (\<exists>e. find (named nm) (spec_update_or_append sources nm url2) = Some e \<and>
                source_url e = Some (TStr url2)) \<and>
           (length (filter (named nm) sources) \<le> 1 \<longrightarrow>
              (\<exists>e. filter (named nm) (spec_update_or_append sources nm url2) = [e] \<and>
                   source_url e = Some (TStr url2)))"
proof -
  obtain p' where p': "add_private_repo pyproject (nm @ CHR '':'' # url1) = Inr p'"
    "registry_sources p' = Some (spec_update_or_append sources nm url1)"
    using add_private_repo_sources [OF assms] by blast
  have "list_all (\<lambda>s. source_name s \<noteq> None) (spec_update_or_append sources nm url1)"
    using assms(3) by (rule spec_update_or_append_wf)
  then obtain p'' where p'': "add_private_repo p' (nm @ CHR '':'' # url2) = Inr p''"
    "registry_sources p'' = Some (spec_update_or_append sources nm url2)"
    using add_private_repo_sources [OF assms(1) p'(2), of url2]
    by (auto simp: spec_update_or_append_twice)
  have found: "list_ex (named nm) sources \<longrightarrow>
      length (spec_update_or_append sources nm url1) = length sources \<and>
      map source_name (spec_update_or_append sources nm url1) = map source_name sources \<and>
      (\<exists>before s after. sources = before @ s # after \<and>
         \<not> list_ex (named nm) before \<and> named nm s \<and>
         spec_update_or_append sources nm url1 = before @ set_url s url1 # after)"
    using spec_update_or_append_found [of nm sources url1]
      spec_update_or_append_length [of nm sources url1] spec_update_or_append_names [of nm sources url1]
    by blast
  have missing: "\<not> list_ex (named nm) sources \<longrightarrow>
      spec_update_or_append sources nm url1 =
        sources @ [TDict [(Some ''name'', TStr nm), (Some ''url'', TStr url1)]]"
    using spec_update_or_append_missing [of nm sources url1] by blast
  have single: "length (filter (named nm) sources) \<le> 1 \<longrightarrow>
      (\<exists>e. filter (named nm) (spec_update_or_append sources nm url2) = [e] \<and>
           source_url e = Some (TStr url2))"
    using spec_update_or_append_single [of nm sources url2] by blast
  show ?thesis
    using p' p'' found missing
      spec_update_or_append_count [of nm sources url2] spec_update_or_append_url [of nm sources url2]
      single
    apply -
    apply (rule exI [of _ p'])
    apply (rule exI [of _ p''])
    apply (intro conjI)
           apply assumption+
    done
qed

theorem add_private_repo_update_or_append_witness:
  "(\<exists>p' p''.
      add_private_repo (example_pyproject None) ''private:https://one.test/'' = Inr p' \<and>
      add_private_repo p' ''private:https://two.test/'' = Inr p'' \<and>
      registry_sources p'' =
        Some [TDict [(Some ''name'', TStr ''private''), (Some ''url'', TStr ''https://two.test/'')]]) \<and>
   (\<exists>p' p''.
      add_private_repo (example_pyproject (Some example_sources)) ''private:https://one.test/'' = Inr p' \<and>
      add_private_repo p' ''private:https://two.test/'' = Inr p'' \<and>
      registry_sources p'' =
        Some [TDict [(Some ''name'', TStr ''internal''), (Some ''url'', TStr ''https://internal.test/'')],
              TDict [(Some ''name'', TStr ''private''), (Some ''url'', TStr ''https://two.test/''),
                     (Some ''default'', TBool True)]]) \<and>
   (\<exists>e. filter (named ''private'')
          (spec_update_or_append example_sources ''private'' ''https://two.test/'') = [e] \<and>
        source_url e = Some (TStr ''https://two.test/''))"
proof -
  have c: "CHR '':'' \<notin> set ''private''" by simp
  have r1: "registry_sources (example_pyproject None) = Some []"
    by (simp add: registry_sources_def example_pyproject_def)
  have r2: "registry_sources (example_pyproject (Some example_sources)) = Some example_sources"
    by (simp add: registry_sources_def example_pyproject_def)
  have w1: "list_all (\<lambda>s. source_name s \<noteq> None) []" by simp
  have w2: "list_all (\<lambda>s. source_name s \<noteq> None) example_sources"
    by (simp add: example_sources_def source_name_def)
  have u1: "spec_update_or_append [] ''private'' ''https://two.test/'' =
            [TDict [(Some ''name'', TStr ''private''), (Some ''url'', TStr ''https://two.test/'')]]"
    by (simp add: spec_update_or_append_def)
  have u2: "spec_update_or_append example_sources ''private'' ''https://two.test/'' =
            [TDict [(Some ''name'', TStr ''internal''), (Some ''url'', TStr ''https://internal.test/'')],
             TDict [(Some ''name'', TStr ''private''), (Some ''url'', TStr ''https://two.test/''),
                    (Some ''default'', TBool True)]]"
    by (simp add: spec_update_or_append_def example_sources_def named_def source_name_def set_url_def)
  have a: "''private'' @ CHR '':'' # ''https://one.test/'' = ''private:https://one.test/''"
    and b: "''private'' @ CHR '':'' # ''https://two.test/'' = ''private:https://two.test/''"
    by simp_all
  have one: "length (filter (named ''private'') example_sources) \<le> 1"
    by (simp add: example_sources_def named_def source_name_def)
  have fresh: "\<exists>p' p''.
      add_private_repo (example_pyproject None) ''private:https://one.test/'' = Inr p' \<and>
      add_private_repo p' ''private:https://two.test/'' = Inr p'' \<and>
      registry_sources p'' =
        Some [TDict [(Some ''name'', TStr ''private''), (Some ''url'', TStr ''https://two.test/'')]]"
    using add_private_repo_update_or_append [OF c r1 w1, of "''https://one.test/''" "''https://two.test/''"]
    unfolding u1 a b by blast
  have rerun: "(\<exists>p' p''.
      add_private_repo (example_pyproject (Some example_sources)) ''private:https://one.test/'' = Inr p' \<and>
      add_private_repo p' ''private:https://two.test/'' = Inr p'' \<and>
      registry_sources p'' =
        Some (spec_update_or_append example_sources ''private'' ''https://two.test/'')) \<and>
    (\<exists>e. filter (named ''private'')
          (spec_update_or_append example_sources ''private'' ''https://two.test/'') = [e] \<and>
        source_url e = Some (TStr ''https://two.test/''))"
    using add_private_repo_update_or_append [OF c r2 w2, of "''https://one.test/''" "''https://two.test/''"] one
    unfolding a b by blast
  show ?thesis
    using fresh rerun unfolding u2 [symmetric] by blast
qed

text \<open>
  Claim C7 as stated fails on a list that already repeats the name: each call returns
  at the first entry of the name, so after the two calls the list still has two
  entries of the name, and the second keeps its old URL.
\<close>

theorem add_private_repo_duplicate_counterexample:
  "add_private_repo (example_pyproject (Some (example_duplicate_sources ''https://zero.test/'')))
     ''private:https://one.test/'' =
     Inr (example_pyproject (Some (example_duplicate_sources ''https://one.test/''))) \<and>
   add_private_repo (example_pyproject (Some (example_duplicate_sources ''https://one.test/'')))
     ''private:https://two.test/'' =
     Inr (example_pyproject (Some (example_duplicate_sources ''https://two.test/''))) \<and>
   filter (named ''private'') (example_duplicate_sources ''https://two.test/'') =
     [TDict [(Some ''name'', TStr ''private''), (Some ''url'', TStr ''https://two.test/'')],
      TDict [(Some ''name'', TStr ''private''), (Some ''url'', TStr ''https://old.test/'')]]"
  by (simp add: add_private_repo_def split_colon_def example_pyproject_def
      example_duplicate_sources_def setdefault_def merge_source_def write_back_def
      named_def source_name_def)

end
